theory Spec2Isabelle
  imports Complex_Main
begin

section \<open>The grid navigator of \<^verbatim>\<open>aoc_solver/aoc_map.py\<close>\<close>

text \<open>
  The development embeds the class \<^verbatim>\<open>AoCMap\<close>: a polars data frame together with a cursor
  (\<^verbatim>\<open>x\<close>, \<^verbatim>\<open>y\<close>) and a heading. Methods that only read return \<open>error + result\<close>. Methods
  that mutate the object return the exception raised, if any, together with the object as
  it is after the call, so that what an exception leaves behind is part of the model.
\<close>

subsection \<open>Directions, errors and cell values\<close>

datatype Direction = N | NE | E | SE | S | SW | W | NW

datatype error = OutOfBounds | TypeError | ValueError | IndexError

text \<open>
  The cells the parser \<^verbatim>\<open>AoCData.create_polars\<close> produces are strings (its default element
  type), integers, or \<^verbatim>\<open>None\<close> where \<^verbatim>\<open>zip_longest\<close> pads a short row.
\<close>

datatype pyval = IntVal int | StrVal string | NoneVal

text \<open>The integer of an \<^verbatim>\<open>IntEnum\<close> member, and the call \<^verbatim>\<open>Direction(v)\<close>.\<close>

fun direction_value :: "Direction \<Rightarrow> int" where
  "direction_value N = 0"
| "direction_value NE = 1"
| "direction_value E = 2"
| "direction_value SE = 3"
| "direction_value S = 4"
| "direction_value SW = 5"
| "direction_value W = 6"
| "direction_value NW = 7"

definition Direction_of :: "int \<Rightarrow> error + Direction" where
  "Direction_of v =
     (if v = 0 then Inr N else if v = 1 then Inr NE else if v = 2 then Inr E
      else if v = 3 then Inr SE else if v = 4 then Inr S else if v = 5 then Inr SW
      else if v = 6 then Inr W else if v = 7 then Inr NW else Inl ValueError)"

subsection \<open>The data frame\<close>

text \<open>
  A polars data frame is a list of columns of equal length, each with a data type. Its
  \<^verbatim>\<open>shape\<close> is (height, width). \<^verbatim>\<open>df[row, col]\<close> resolves a negative index from the end, as
  polars does, and raises outside the frame. The parser builds string columns with its
  default element type \<^verbatim>\<open>str\<close> and 64-bit integer columns with \<^verbatim>\<open>int\<close>.
\<close>

datatype dtype = Int64 | String

datatype Series = Series (dtype: dtype) (cells: "pyval list")

type_synonym DataFrame = "Series list"

definition df_width :: "DataFrame \<Rightarrow> int" where
  "df_width d = int (length d)"

definition df_height :: "DataFrame \<Rightarrow> int" where
  "df_height d = (case d of [] \<Rightarrow> 0 | c # _ \<Rightarrow> int (length (cells c)))"

definition df_wf :: "DataFrame \<Rightarrow> bool" where
  "df_wf d = list_all (\<lambda>c. int (length (cells c)) = df_height d) d"

definition resolve_index :: "int \<Rightarrow> int \<Rightarrow> error + nat" where
  "resolve_index n i =
     (let j = (if i < 0 then n + i else i)
      in if 0 \<le> j \<and> j < n then Inr (nat j) else Inl IndexError)"

definition df_item :: "DataFrame \<Rightarrow> int \<Rightarrow> int \<Rightarrow> error + pyval" where
  "df_item d row col =
     (case resolve_index (df_width d) col of
        Inl e \<Rightarrow> Inl e
      | Inr c \<Rightarrow>
          (case resolve_index (df_height d) row of
             Inl e \<Rightarrow> Inl e
           | Inr r \<Rightarrow> Inr (cells (d ! c) ! r)))"

text \<open>
  The assignment \<^verbatim>\<open>df[row, col] = value\<close> resolves its indices as the read does and stores
  the value converted to the data type of the column; the data type of the column stays.
  The conversion is polars' own, not code of this module: it is the parameter \<open>cast\<close>
  of the model, from the data type of the column and the value written to the value
  stored.
\<close>

definition df_setitem ::
  "(dtype \<Rightarrow> pyval \<Rightarrow> pyval) \<Rightarrow> DataFrame \<Rightarrow> int \<Rightarrow> int \<Rightarrow> pyval \<Rightarrow> error + DataFrame"
where
  "df_setitem cast d row col v =
     (case resolve_index (df_width d) col of
        Inl e \<Rightarrow> Inl e
      | Inr c \<Rightarrow>
          (case resolve_index (df_height d) row of
             Inl e \<Rightarrow> Inl e
           | Inr r \<Rightarrow>
               Inr (d[c := Series (dtype (d ! c)) ((cells (d ! c))[r := cast (dtype (d ! c)) v])])))"

text \<open>
  The conversions of polars that the examples below use. An integer written into a string
  column becomes its decimal string; a value of the column's own type is stored as it is,
  and so is \<^verbatim>\<open>None\<close>, as null; an integer outside 64 bits becomes null in an integer
  column. A string written into an integer column is given as null, which is what polars
  stores for a string that is not a number; no example writes one.
\<close>

fun nat_str :: "nat \<Rightarrow> string" where
  "nat_str n = (if n < 10 then [''0123456789'' ! n] else nat_str (n div 10) @ [''0123456789'' ! (n mod 10)])"

definition int_str :: "int \<Rightarrow> string" where
  "int_str i = (if i < 0 then CHR ''-'' # nat_str (nat (- i)) else nat_str (nat i))"

fun polars_cast :: "dtype \<Rightarrow> pyval \<Rightarrow> pyval" where
  "polars_cast String (IntVal n) = StrVal (int_str n)"
| "polars_cast String (StrVal s) = StrVal s"
| "polars_cast Int64 (IntVal n) = (if - (2 ^ 63) \<le> n \<and> n < 2 ^ 63 then IntVal n else NoneVal)"
| "polars_cast Int64 (StrVal s) = NoneVal"
| "polars_cast t NoneVal = NoneVal"

text \<open>\<^verbatim>\<open>values[i]\<close> on a Python list.\<close>

definition list_item :: "pyval list \<Rightarrow> int \<Rightarrow> error + pyval" where
  "list_item vs i =
     (case resolve_index (int (length vs)) i of Inl e \<Rightarrow> Inl e | Inr j \<Rightarrow> Inr (vs ! j))"

subsection \<open>The class \<^verbatim>\<open>AoCMap\<close>\<close>

record AoCMap =
  df :: DataFrame
  x :: int
  y :: int
  heading :: Direction

definition x_max :: "AoCMap \<Rightarrow> int" where
  "x_max m = df_width (df m)"

definition y_max :: "AoCMap \<Rightarrow> int" where
  "y_max m = df_height (df m)"

definition shape :: "AoCMap \<Rightarrow> int \<times> int" where
  "shape m = (x_max m, y_max m)"

text \<open>\<^verbatim>\<open>v in range(n)\<close> for an integer \<open>v\<close>.\<close>

definition in_range :: "int \<Rightarrow> int \<Rightarrow> bool" where
  "in_range v n = (0 \<le> v \<and> v < n)"

definition getitem :: "AoCMap \<Rightarrow> int \<times> int \<Rightarrow> error + pyval" where
  "getitem m indices =
     (case indices of (i, j) \<Rightarrow>
        if \<not> in_range i (x_max m) \<or> \<not> in_range j (y_max m) then Inl OutOfBounds
        else df_item (df m) j i)"

text \<open>
  The class defines \<^verbatim>\<open>__getitem__\<close> and no \<^verbatim>\<open>__setitem__\<close>. The assignment \<^verbatim>\<open>m[x, y] = value\<close>
  on an instance therefore raises Python's \<^verbatim>\<open>TypeError\<close> (the object does not support item
  assignment) whatever the indices are, and changes nothing.
\<close>

definition setitem :: "AoCMap \<Rightarrow> int \<times> int \<Rightarrow> pyval \<Rightarrow> error option \<times> AoCMap" where
  "setitem m indices v = (Some TypeError, m)"

definition encloses :: "AoCMap \<Rightarrow> int \<Rightarrow> int \<Rightarrow> bool" where
  "encloses m i j = (in_range i (x_max m) \<and> in_range j (y_max m))"

definition position :: "AoCMap \<Rightarrow> int \<times> int" where
  "position m = (x m, y m)"

definition set_position :: "int \<times> int \<Rightarrow> AoCMap \<Rightarrow> error option \<times> AoCMap" where
  "set_position val m =
     (case val of (x_new, y_new) \<Rightarrow>
        if \<not> encloses m x_new y_new then (Some OutOfBounds, m)
        else (None, m\<lparr>x := x_new, y := y_new\<rparr>))"

subsection \<open>\<^verbatim>\<open>look\<close>\<close>

text \<open>
  \<^verbatim>\<open>look\<close> returns the bare cell for \<^verbatim>\<open>steps == 0\<close> and a list otherwise. The step count
  \<open>None\<close> is the omitted argument, which the method replaces by \<^verbatim>\<open>math.inf\<close>; so
  \<^verbatim>\<open>min(steps, a)\<close> is \<open>a\<close> there. The branch \<^verbatim>\<open>case _\<close> of the \<^verbatim>\<open>match\<close> is not reached by a
  member of the enumeration.
\<close>

datatype look_result = Value pyval | Values "pyval list"

definition min_steps :: "int option \<Rightarrow> int \<Rightarrow> int" where
  "min_steps steps a = (case steps of None \<Rightarrow> a | Some s \<Rightarrow> min s a)"

text \<open>A list comprehension whose element expression may raise.\<close>

fun comprehension :: "(int \<Rightarrow> error + pyval) \<Rightarrow> int list \<Rightarrow> error + pyval list" where
  "comprehension f [] = Inr []"
| "comprehension f (i # is) =
     (case f i of
        Inl e \<Rightarrow> Inl e
      | Inr v \<Rightarrow> (case comprehension f is of Inl e \<Rightarrow> Inl e | Inr vs \<Rightarrow> Inr (v # vs)))"

definition look_list :: "(int \<Rightarrow> error + pyval) \<Rightarrow> int \<Rightarrow> error + look_result" where
  "look_list f n = (case comprehension f [1..n] of Inl e \<Rightarrow> Inl e | Inr vs \<Rightarrow> Inr (Values vs))"

text \<open>Lines 105 to 140: the scan, once the step count is positive or unbounded.\<close>

definition look_scan :: "int option \<Rightarrow> Direction \<Rightarrow> AoCMap \<Rightarrow> error + look_result" where
  "look_scan steps direction m =
     (let max_steps_N = min_steps steps (y m);
          max_steps_E = min_steps steps ((x_max m - 1) - x m);
          max_steps_S = min_steps steps ((y_max m - 1) - y m);
          max_steps_W = min_steps steps (x m)
      in case direction of
           N \<Rightarrow> look_list (\<lambda>i. df_item (df m) (y m - i) (x m)) max_steps_N
         | NE \<Rightarrow> look_list (\<lambda>i. df_item (df m) (y m - i) (x m + i)) (min max_steps_N max_steps_E)
         | E \<Rightarrow> look_list (\<lambda>i. df_item (df m) (y m) (x m + i)) max_steps_E
         | SE \<Rightarrow> look_list (\<lambda>i. df_item (df m) (y m + i) (x m + i)) (min max_steps_S max_steps_E)
         | S \<Rightarrow> look_list (\<lambda>i. df_item (df m) (y m + i) (x m)) max_steps_S
         | SW \<Rightarrow> look_list (\<lambda>i. df_item (df m) (y m + i) (x m - i)) (min max_steps_S max_steps_W)
         | W \<Rightarrow> look_list (\<lambda>i. df_item (df m) (y m) (x m - i)) max_steps_W
         | NW \<Rightarrow> look_list (\<lambda>i. df_item (df m) (y m - i) (x m - i)) (min max_steps_N max_steps_W))"

definition look :: "int option \<Rightarrow> Direction option \<Rightarrow> AoCMap \<Rightarrow> error + look_result" where
  "look steps direction m =
     (let direction = (case direction of None \<Rightarrow> heading m | Some d \<Rightarrow> d)
      in if steps = Some 0 then
           (case df_item (df m) (y m) (x m) of Inl e \<Rightarrow> Inl e | Inr v \<Rightarrow> Inr (Value v))
         else if (case steps of None \<Rightarrow> False | Some s \<Rightarrow> s < 0) then
           (case Direction_of ((direction_value direction + 4) mod 8) of
              Inl e \<Rightarrow> Inl e
            | Inr direction \<Rightarrow> look_scan (map_option abs steps) direction m)
         else look_scan steps direction m)"

subsection \<open>\<^verbatim>\<open>update\<close>\<close>

text \<open>
  The loop \<^verbatim>\<open>for i in max_steps: self.df[row, col] = values[i]\<close>, where \<open>target i\<close> is the
  pair (row, col) of iteration \<open>i\<close>. An exception ends the loop and keeps the cells
  written so far.
\<close>

fun update_loop ::
  "(dtype \<Rightarrow> pyval \<Rightarrow> pyval) \<Rightarrow> (int \<Rightarrow> int \<times> int) \<Rightarrow> pyval list \<Rightarrow> int list \<Rightarrow> DataFrame \<Rightarrow>
   error option \<times> DataFrame"
where
  "update_loop cast target vals [] d = (None, d)"
| "update_loop cast target vals (i # is) d =
     (case list_item vals i of
        Inl e \<Rightarrow> (Some e, d)
      | Inr v \<Rightarrow>
          (case df_setitem cast d (fst (target i)) (snd (target i)) v of
             Inl e \<Rightarrow> (Some e, d)
           | Inr d' \<Rightarrow> update_loop cast target vals is d'))"

text \<open>Lines 150 to 190: the writes, once the offset is not negative.\<close>

definition update_scan ::
  "(dtype \<Rightarrow> pyval \<Rightarrow> pyval) \<Rightarrow> pyval list \<Rightarrow> int \<Rightarrow> Direction \<Rightarrow> AoCMap \<Rightarrow>
   error option \<times> DataFrame"
where
  "update_scan cast vals offset direction m =
     (let steps = int (length vals);
          max_steps_N = min steps (y m + 1 - offset);
          max_steps_E = min steps (x_max m - x m - offset);
          max_steps_S = min steps (y_max m - y m - offset);
          max_steps_W = min steps (x m + 1 - offset)
      in case direction of
           N \<Rightarrow> update_loop cast (\<lambda>i. (y m - i - offset, x m)) vals [0..max_steps_N - 1] (df m)
         | NE \<Rightarrow> update_loop cast (\<lambda>i. (y m - i - offset, x m + i + offset)) vals
                  [0..min max_steps_N max_steps_E - 1] (df m)
         | E \<Rightarrow> update_loop cast (\<lambda>i. (y m, x m + i + offset)) vals [0..max_steps_E - 1] (df m)
         | SE \<Rightarrow> update_loop cast (\<lambda>i. (y m + i + offset, x m + i + offset)) vals
                  [0..min max_steps_S max_steps_E - 1] (df m)
         | S \<Rightarrow> update_loop cast (\<lambda>i. (y m + i + offset, x m)) vals [0..max_steps_S - 1] (df m)
         | SW \<Rightarrow> update_loop cast (\<lambda>i. (y m + i + offset, x m - i - offset)) vals
                  [0..min max_steps_S max_steps_W - 1] (df m)
         | W \<Rightarrow> update_loop cast (\<lambda>i. (y m, x m - i - offset)) vals [0..max_steps_W - 1] (df m)
         | NW \<Rightarrow> update_loop cast (\<lambda>i. (y m - i - offset, x m - i - offset)) vals
                  [0..min max_steps_N max_steps_W - 1] (df m))"

definition update ::
  "(dtype \<Rightarrow> pyval \<Rightarrow> pyval) \<Rightarrow> pyval list \<Rightarrow> int \<Rightarrow> Direction option \<Rightarrow> AoCMap \<Rightarrow>
   error option \<times> AoCMap"
where
  "update cast vals offset direction m =
     (let direction = (case direction of None \<Rightarrow> heading m | Some d \<Rightarrow> d)
      in if offset < 0 then
           (case Direction_of ((direction_value direction + 4) mod 8) of
              Inl e \<Rightarrow> (Some e, m)
            | Inr direction \<Rightarrow>
                (case update_scan cast vals (abs offset) direction m of
                   (r, d') \<Rightarrow> (r, m\<lparr>df := d'\<rparr>)))
         else
           (case update_scan cast vals offset direction m of (r, d') \<Rightarrow> (r, m\<lparr>df := d'\<rparr>)))"

subsection \<open>\<^verbatim>\<open>walk\<close>\<close>

text \<open>
  \<^verbatim>\<open>len\<close> of what \<^verbatim>\<open>look\<close> returned: the length of the list, or of the bare cell when that
  is a string; an integer or \<^verbatim>\<open>None\<close> has no length.
\<close>

fun py_len :: "look_result \<Rightarrow> error + int" where
  "py_len (Values vs) = Inr (int (length vs))"
| "py_len (Value (StrVal s)) = Inr (int (length s))"
| "py_len (Value (IntVal _)) = Inl TypeError"
| "py_len (Value NoneVal) = Inl TypeError"

definition walk :: "int \<Rightarrow> Direction option \<Rightarrow> AoCMap \<Rightarrow> error option \<times> AoCMap" where
  "walk steps direction m =
     (let direction = (case direction of None \<Rightarrow> heading m | Some d \<Rightarrow> d)
      in case look (Some steps) (Some direction) m of
           Inl e \<Rightarrow> (Some e, m)
         | Inr r \<Rightarrow>
             (case py_len r of
                Inl e \<Rightarrow> (Some e, m)
              | Inr n \<Rightarrow>
                  (let path_length = min steps n
                   in (None,
                       case direction of
                         N \<Rightarrow> m\<lparr>y := y m - path_length\<rparr>
                       | NE \<Rightarrow> m\<lparr>x := x m + path_length, y := y m - path_length\<rparr>
                       | E \<Rightarrow> m\<lparr>x := x m + path_length\<rparr>
                       | SE \<Rightarrow> m\<lparr>x := x m + path_length, y := y m + path_length\<rparr>
                       | S \<Rightarrow> m\<lparr>y := y m + path_length\<rparr>
                       | SW \<Rightarrow> m\<lparr>x := x m - path_length, y := y m + path_length\<rparr>
                       | W \<Rightarrow> m\<lparr>x := x m - path_length\<rparr>
                       | NW \<Rightarrow> m\<lparr>x := x m - path_length, y := y m - path_length\<rparr>))))"

subsection \<open>\<^verbatim>\<open>rotate\<close>\<close>

text \<open>
  \<^verbatim>\<open>degrees // 45\<close> is the floor division of integers; adding \<^verbatim>\<open>sign_adjustment\<close> makes a
  float, which \<^verbatim>\<open>int\<close> truncates toward zero. The float is modelled by the rational it
  denotes, which is exact while the quotient is below \<open>2 ^ 52\<close> in magnitude.
\<close>

definition py_int :: "rat \<Rightarrow> int" where
  "py_int r = (if r < 0 then \<lceil>r\<rceil> else \<lfloor>r\<rfloor>)"

definition rotate_steps :: "int \<Rightarrow> int" where
  "rotate_steps degrees =
     (let sign_adjustment = (if degrees > 0 then 1 / 2 else - (1 / 2) :: rat)
      in py_int (of_int (degrees div 45) + sign_adjustment))"

definition rotate :: "int \<Rightarrow> AoCMap \<Rightarrow> error option \<times> AoCMap" where
  "rotate degrees m =
     (let new_heading = (direction_value (heading m) + rotate_steps degrees) mod 8
      in case Direction_of new_heading of
           Inl e \<Rightarrow> (Some e, m)
         | Inr h \<Rightarrow> (None, m\<lparr>heading := h\<rparr>))"

subsection \<open>Vocabulary of the specification\<close>

text \<open>
  The cell of a frame at a row and a column inside it, the data type of a column, and the
  test that a (row, column) pair lies inside the frame.
\<close>

definition cell :: "DataFrame \<Rightarrow> int \<Rightarrow> int \<Rightarrow> pyval" where
  "cell d row col = cells (d ! nat col) ! nat row"

definition column_dtype :: "DataFrame \<Rightarrow> int \<Rightarrow> dtype" where
  "column_dtype d col = dtype (d ! nat col)"

definition in_frame :: "DataFrame \<Rightarrow> int \<times> int \<Rightarrow> bool" where
  "in_frame d p = (0 \<le> fst p \<and> fst p < df_height d \<and> 0 \<le> snd p \<and> snd p < df_width d)"

text \<open>
  The unit step of a direction, as the specification's design notes give it
  (N = (0, -1), NE = (1, -1), and so on), and its reverse direction \<open>(d + 4) mod 8\<close>.
\<close>

fun dx :: "Direction \<Rightarrow> int" where
  "dx N = 0" | "dx NE = 1" | "dx E = 1" | "dx SE = 1"
| "dx S = 0" | "dx SW = - 1" | "dx W = - 1" | "dx NW = - 1"

fun dy :: "Direction \<Rightarrow> int" where
  "dy N = - 1" | "dy NE = - 1" | "dy E = 0" | "dy SE = 1"
| "dy S = 1" | "dy SW = 1" | "dy W = 0" | "dy NW = - 1"

fun reverse :: "Direction \<Rightarrow> Direction" where
  "reverse N = S" | "reverse NE = SW" | "reverse E = W" | "reverse SE = NW"
| "reverse S = N" | "reverse SW = NE" | "reverse W = E" | "reverse NW = SE"

definition resolved :: "Direction option \<Rightarrow> AoCMap \<Rightarrow> Direction" where
  "resolved direction m = (case direction of None \<Rightarrow> heading m | Some d \<Rightarrow> d)"

text \<open>
  The number of steps from the cursor to the grid boundary in a direction; for a diagonal,
  the minimum of the two axis-wise distances. \<open>cells_beyond\<close> is the number of cells at
  distance \<open>offset\<close> or more from the cursor in that direction.
\<close>

fun steps_to_boundary :: "Direction \<Rightarrow> AoCMap \<Rightarrow> int" where
  "steps_to_boundary N m = y m"
| "steps_to_boundary E m = (x_max m - 1) - x m"
| "steps_to_boundary S m = (y_max m - 1) - y m"
| "steps_to_boundary W m = x m"
| "steps_to_boundary NE m = min (y m) ((x_max m - 1) - x m)"
| "steps_to_boundary SE m = min ((y_max m - 1) - y m) ((x_max m - 1) - x m)"
| "steps_to_boundary SW m = min ((y_max m - 1) - y m) (x m)"
| "steps_to_boundary NW m = min (y m) (x m)"

definition cells_beyond :: "int \<Rightarrow> Direction \<Rightarrow> AoCMap \<Rightarrow> int" where
  "cells_beyond offset d m = max 0 (steps_to_boundary d m + 1 - offset)"

text \<open>
  The step count the specification gives for \<^verbatim>\<open>rotate\<close>: \<open>degrees / 45\<close> rounded half away
  from zero.
\<close>

definition round_half_away_steps :: "int \<Rightarrow> int" where
  "round_half_away_steps degrees =
     (if degrees > 0 then \<lfloor>of_int degrees / 45 + 1 / 2 :: rat\<rfloor>
      else \<lceil>of_int degrees / 45 - 1 / 2 :: rat\<rceil>)"

subsection \<open>Example grids\<close>

text \<open>
  A grid of three columns and two rows with cell (col, row) = \<open>10 * col + row\<close>, as the
  module's own demonstration builds it, in integer columns; a one-column grid of
  characters, a string column; and a grid of a single integer cell.
\<close>

definition example_frame :: DataFrame where
  "example_frame =
     [Series Int64 [IntVal 0, IntVal 1], Series Int64 [IntVal 10, IntVal 11],
      Series Int64 [IntVal 20, IntVal 21]]"

definition example_map :: AoCMap where
  "example_map = \<lparr>df = example_frame, x = 0, y = 0, heading = N\<rparr>"

definition text_map :: AoCMap where
  "text_map = \<lparr>df = [Series String [StrVal ''#'', StrVal ''.'']], x = 0, y = 0, heading = N\<rparr>"

definition unit_map :: AoCMap where
  "unit_map = \<lparr>df = [Series Int64 [IntVal 0]], x = 0, y = 0, heading = N\<rparr>"

section \<open>Properties\<close>

subsection \<open>Frames and indexing\<close>

lemma resolve_index_in_range: "0 \<le> i \<Longrightarrow> i < n \<Longrightarrow> resolve_index n i = Inr (nat i)"
  by (simp add: resolve_index_def)

lemma df_item_in_range:
  "0 \<le> row \<Longrightarrow> row < df_height d \<Longrightarrow> 0 \<le> col \<Longrightarrow> col < df_width d \<Longrightarrow>
   df_item d row col = Inr (cell d row col)"
  by (simp add: df_item_def resolve_index_in_range cell_def)

lemma df_wf_column_length:
  "df_wf d \<Longrightarrow> 0 \<le> col \<Longrightarrow> col < df_width d \<Longrightarrow> int (length (cells (d ! nat col))) = df_height d"
  by (simp add: df_wf_def df_width_def list_all_length)

lemma getitem_enclosed:
  "encloses m i j \<Longrightarrow> getitem m (i, j) = Inr (cell (df m) j i)"
  by (simp add: getitem_def encloses_def in_range_def x_max_def y_max_def df_item_in_range)

lemma getitem_outside:
  "\<not> encloses m i j \<Longrightarrow> getitem m (i, j) = Inl OutOfBounds"
  by (auto simp add: getitem_def encloses_def)

lemma comprehension_all_Inr:
  "(\<And>i. i \<in> set is \<Longrightarrow> f i = Inr (g i)) \<Longrightarrow> comprehension f is = Inr (map g is)"
  by (induction "is") simp_all

lemma look_list_all_Inr:
  "(\<And>i. 1 \<le> i \<Longrightarrow> i \<le> n \<Longrightarrow> f i = Inr (g i)) \<Longrightarrow> look_list f n = Inr (Values (map g [1..n]))"
proof -
  assume h: "\<And>i. 1 \<le> i \<Longrightarrow> i \<le> n \<Longrightarrow> f i = Inr (g i)"
  have "comprehension f [1..n] = Inr (map g [1..n])"
    by (rule comprehension_all_Inr) (simp add: h)
  then show ?thesis by (simp add: look_list_def)
qed

lemma df_height_nth:
  "df_wf d \<Longrightarrow> c < length d \<Longrightarrow> int (length (cells (d ! c))) = df_height d"
  by (simp add: df_wf_def list_all_length)

lemma df_height_list_update:
  assumes "df_wf d" and "c < length d" and "length (cells col) = length (cells (d ! c))"
  shows "df_height (d[c := col]) = df_height d"
proof (cases d)
  case Nil
  then show ?thesis by simp
next
  case (Cons a as)
  show ?thesis
  proof (cases c)
    case 0
    then show ?thesis using assms(3) Cons by (simp add: df_height_def)
  next
    case (Suc n)
    then show ?thesis using Cons by (simp add: df_height_def)
  qed
qed

lemma df_wf_list_update:
  assumes "df_wf d" and "c < length d" and "length (cells col) = length (cells (d ! c))"
  shows "df_wf (d[c := col])"
proof -
  have h: "df_height (d[c := col]) = df_height d"
    by (rule df_height_list_update [OF assms])
  have "int (length (cells (d[c := col] ! j))) = df_height d" if "j < length d" for j
    using that assms by (cases "j = c") (simp_all add: df_height_nth)
  then show ?thesis
    by (simp add: df_wf_def list_all_length h)
qed

lemma df_setitem_in_range:
  assumes "df_wf d" and "0 \<le> row" "row < df_height d" "0 \<le> col" "col < df_width d"
  shows "\<exists>d'. df_setitem cast d row col v = Inr d' \<and> df_wf d' \<and>
           df_width d' = df_width d \<and> df_height d' = df_height d \<and>
           (\<forall>c. column_dtype d' c = column_dtype d c) \<and>
           cell d' row col = cast (column_dtype d col) v \<and>
           (\<forall>r c. 0 \<le> r \<and> 0 \<le> c \<and> (r, c) \<noteq> (row, col) \<longrightarrow> cell d' r c = cell d r c)"
proof -
  define s where "s = Series (dtype (d ! nat col)) ((cells (d ! nat col))[nat row := cast (dtype (d ! nat col)) v])"
  define d' where "d' = d[nat col := s]"
  have c: "nat col < length d" using assms(4,5) by (simp add: df_width_def)
  have r: "nat row < length (cells (d ! nat col))"
    using df_height_nth [OF assms(1) c] assms(2,3) by simp
  have l: "length (cells s) = length (cells (d ! nat col))" by (simp add: s_def)
  have 1: "df_setitem cast d row col v = Inr d'"
    using assms by (simp add: df_setitem_def resolve_index_in_range d'_def s_def)
  have 2: "df_wf d'" unfolding d'_def by (rule df_wf_list_update [OF assms(1) c l])
  have 3: "df_width d' = df_width d" by (simp add: d'_def df_width_def)
  have 4: "df_height d' = df_height d"
    unfolding d'_def by (rule df_height_list_update [OF assms(1) c l])
  have t: "column_dtype d' c' = column_dtype d c'" for c'
    using c by (cases "nat c' = nat col") (simp_all add: column_dtype_def d'_def s_def)
  have 5: "cell d' row col = cast (column_dtype d col) v"
    using c r by (simp add: cell_def d'_def s_def column_dtype_def)
  have 6: "cell d' r' c' = cell d r' c'" if "0 \<le> r'" "0 \<le> c'" "(r', c') \<noteq> (row, col)" for r' c'
  proof (cases "c' = col")
    case True
    then have "nat r' \<noteq> nat row" using that assms(2) by auto
    then show ?thesis using True c by (simp add: cell_def d'_def s_def)
  next
    case False
    then have "nat c' \<noteq> nat col" using that assms(4) by auto
    then show ?thesis by (simp add: cell_def d'_def)
  qed
  show ?thesis using 1 2 3 4 t 5 6 by blast
qed

lemma list_item_in_range: "0 \<le> i \<Longrightarrow> i < int (length vs) \<Longrightarrow> list_item vs i = Inr (vs ! nat i)"
  by (simp add: list_item_def resolve_index_in_range)

subsection \<open>Directions and rotation\<close>

lemma rotate_steps_floor: "rotate_steps degrees = degrees div 45"
proof (cases "degrees > 0")
  case True
  then have "0 \<le> degrees div 45" by (simp add: pos_imp_zdiv_nonneg_iff)
  then have "\<not> (of_int (degrees div 45) + 1 / 2 :: rat) < 0" by (simp add: not_less add_nonneg_nonneg)
  moreover have "\<lfloor>of_int (degrees div 45) + 1 / 2 :: rat\<rfloor> = degrees div 45" by (simp add: floor_unique)
  ultimately show ?thesis using True by (simp add: rotate_steps_def py_int_def)
next
  case False
  then have "degrees div 45 \<le> 0" by (simp add: div_nonpos_pos_le0)
  then have "(of_int (degrees div 45) - 1 / 2 :: rat) < 0" by simp
  moreover have "\<lceil>of_int (degrees div 45) - 1 / 2 :: rat\<rceil> = degrees div 45" by (simp add: ceiling_unique)
  ultimately show ?thesis using False by (simp add: rotate_steps_def py_int_def)
qed

lemma Direction_of_value: "Direction_of (direction_value h mod 8) = Inr h"
  by (cases h) (simp_all add: Direction_of_def)

lemma reverse_value: "direction_value (reverse d) = (direction_value d + 4) mod 8"
  by (cases d) simp_all

lemma Direction_of_reverse: "Direction_of ((direction_value d + 4) mod 8) = Inr (reverse d)"
  by (cases d) (simp_all add: Direction_of_def)

subsection \<open>The scan of \<^verbatim>\<open>look\<close>\<close>

lemma min_steps_min: "min (min_steps s a) (min_steps s b) = min_steps s (min a b)"
  by (cases s) (auto simp: min_steps_def)

lemma min_steps_le: "min_steps s a \<le> a"
  by (cases s) (auto simp: min_steps_def)

lemma look_list_cells:
  assumes "\<And>i. 1 \<le> i \<Longrightarrow> i \<le> n \<Longrightarrow>
             0 \<le> r i \<and> r i < df_height d \<and> 0 \<le> c i \<and> c i < df_width d"
  shows "look_list (\<lambda>i. df_item d (r i) (c i)) n = Inr (Values (map (\<lambda>i. cell d (r i) (c i)) [1..n]))"
  by (rule look_list_all_Inr) (simp add: assms df_item_in_range)

lemma look_scan_cells:
  assumes "encloses m (x m) (y m)"
  shows "look_scan steps d m =
         Inr (Values (map (\<lambda>i. cell (df m) (y m + i * dy d) (x m + i * dx d))
                        [1..min_steps steps (steps_to_boundary d m)]))"
proof -
  have b: "0 \<le> x m" "x m < df_width (df m)" "0 \<le> y m" "y m < df_height (df m)"
    using assms by (simp_all add: encloses_def in_range_def x_max_def y_max_def)
  have n: "min_steps steps (steps_to_boundary d m) \<le> steps_to_boundary d m"
    by (rule min_steps_le)
  show ?thesis
  proof (cases d)
    case N
    have "look_scan steps N m = look_list (\<lambda>i. df_item (df m) (y m - i) (x m)) (min_steps steps (steps_to_boundary N m))"
      by (simp add: look_scan_def Let_def)
    also have "\<dots> = Inr (Values (map (\<lambda>i. cell (df m) (y m - i) (x m)) [1..min_steps steps (steps_to_boundary N m)]))"
      by (rule look_list_cells) (use b n N in \<open>simp add: x_max_def y_max_def\<close>)
    finally show ?thesis using N by simp
  next
    case NE
    have "look_scan steps NE m = look_list (\<lambda>i. df_item (df m) (y m - i) (x m + i)) (min_steps steps (steps_to_boundary NE m))"
      by (simp add: look_scan_def Let_def min_steps_min)
    also have "\<dots> = Inr (Values (map (\<lambda>i. cell (df m) (y m - i) (x m + i)) [1..min_steps steps (steps_to_boundary NE m)]))"
      by (rule look_list_cells) (use b n NE in \<open>simp add: x_max_def y_max_def\<close>)
    finally show ?thesis using NE by simp
  next
    case E
    have "look_scan steps E m = look_list (\<lambda>i. df_item (df m) (y m) (x m + i)) (min_steps steps (steps_to_boundary E m))"
      by (simp add: look_scan_def Let_def)
    also have "\<dots> = Inr (Values (map (\<lambda>i. cell (df m) (y m) (x m + i)) [1..min_steps steps (steps_to_boundary E m)]))"
      by (rule look_list_cells) (use b n E in \<open>simp add: x_max_def y_max_def\<close>)
    finally show ?thesis using E by simp
  next
    case SE
    have "look_scan steps SE m = look_list (\<lambda>i. df_item (df m) (y m + i) (x m + i)) (min_steps steps (steps_to_boundary SE m))"
      by (simp add: look_scan_def Let_def min_steps_min)
    also have "\<dots> = Inr (Values (map (\<lambda>i. cell (df m) (y m + i) (x m + i)) [1..min_steps steps (steps_to_boundary SE m)]))"
      by (rule look_list_cells) (use b n SE in \<open>simp add: x_max_def y_max_def\<close>)
    finally show ?thesis using SE by simp
  next
    case S
    have "look_scan steps S m = look_list (\<lambda>i. df_item (df m) (y m + i) (x m)) (min_steps steps (steps_to_boundary S m))"
      by (simp add: look_scan_def Let_def)
    also have "\<dots> = Inr (Values (map (\<lambda>i. cell (df m) (y m + i) (x m)) [1..min_steps steps (steps_to_boundary S m)]))"
      by (rule look_list_cells) (use b n S in \<open>simp add: x_max_def y_max_def\<close>)
    finally show ?thesis using S by simp
  next
    case SW
    have "look_scan steps SW m = look_list (\<lambda>i. df_item (df m) (y m + i) (x m - i)) (min_steps steps (steps_to_boundary SW m))"
      by (simp add: look_scan_def Let_def min_steps_min)
    also have "\<dots> = Inr (Values (map (\<lambda>i. cell (df m) (y m + i) (x m - i)) [1..min_steps steps (steps_to_boundary SW m)]))"
      by (rule look_list_cells) (use b n SW in \<open>simp add: x_max_def y_max_def\<close>)
    finally show ?thesis using SW by simp
  next
    case W
    have "look_scan steps W m = look_list (\<lambda>i. df_item (df m) (y m) (x m - i)) (min_steps steps (steps_to_boundary W m))"
      by (simp add: look_scan_def Let_def)
    also have "\<dots> = Inr (Values (map (\<lambda>i. cell (df m) (y m) (x m - i)) [1..min_steps steps (steps_to_boundary W m)]))"
      by (rule look_list_cells) (use b n W in \<open>simp add: x_max_def y_max_def\<close>)
    finally show ?thesis using W by simp
  next
    case NW
    have "look_scan steps NW m = look_list (\<lambda>i. df_item (df m) (y m - i) (x m - i)) (min_steps steps (steps_to_boundary NW m))"
      by (simp add: look_scan_def Let_def min_steps_min)
    also have "\<dots> = Inr (Values (map (\<lambda>i. cell (df m) (y m - i) (x m - i)) [1..min_steps steps (steps_to_boundary NW m)]))"
      by (rule look_list_cells) (use b n NW in \<open>simp add: x_max_def y_max_def\<close>)
    finally show ?thesis using NW by simp
  qed
qed

lemma look_forward:
  "steps = None \<or> (\<exists>s. steps = Some s \<and> 1 \<le> s) \<Longrightarrow>
   look steps direction m = look_scan steps (resolved direction m) m"
  by (auto simp add: look_def resolved_def)

lemma look_backward:
  "s < 0 \<Longrightarrow> look (Some s) direction m = look_scan (Some (- s)) (reverse (resolved direction m)) m"
  by (simp add: look_def resolved_def Direction_of_reverse)

lemma look_zero:
  "encloses m (x m) (y m) \<Longrightarrow> look (Some 0) direction m = Inr (Value (cell (df m) (y m) (x m)))"
  by (simp add: look_def encloses_def in_range_def x_max_def y_max_def df_item_in_range)

lemma steps_to_boundary_nonneg: "encloses m (x m) (y m) \<Longrightarrow> 0 \<le> steps_to_boundary d m"
  by (cases d) (simp_all add: encloses_def in_range_def)

lemma path_cell_enclosed:
  "encloses m (x m) (y m) \<Longrightarrow> 0 \<le> i \<Longrightarrow> i \<le> steps_to_boundary d m \<Longrightarrow>
   encloses m (x m + i * dx d) (y m + i * dy d)"
  by (cases d) (simp_all add: encloses_def in_range_def)

subsection \<open>The moves of \<^verbatim>\<open>walk\<close>\<close>

lemma walk_forward:
  assumes "encloses m (x m) (y m)" and "1 \<le> s"
  shows "walk s direction m =
         (None, m\<lparr>x := x m + min s (steps_to_boundary (resolved direction m) m) * dx (resolved direction m),
                   y := y m + min s (steps_to_boundary (resolved direction m) m) * dy (resolved direction m)\<rparr>)"
proof -
  define d where "d = resolved direction m"
  define k where "k = min s (steps_to_boundary d m)"
  have k0: "0 \<le> k"
    using assms(2) steps_to_boundary_nonneg [OF assms(1), of d] by (simp add: k_def)
  have "look (Some s) (Some d) m = look_scan (Some s) d m"
    using assms(2) by (simp add: look_forward resolved_def)
  define vs where "vs = map (\<lambda>i. cell (df m) (y m + i * dy d) (x m + i * dx d)) [1..k]"
  have l: "look (Some s) (Some d) m = Inr (Values vs)"
    using \<open>look (Some s) (Some d) m = look_scan (Some s) d m\<close>
    by (simp add: look_scan_cells [OF assms(1)] k_def min_steps_def vs_def)
  have p: "min s (int (length vs)) = k"
    using k0 by (simp add: k_def vs_def)
  have "walk s direction m = (None, m\<lparr>x := x m + k * dx d, y := y m + k * dy d\<rparr>)"
    unfolding walk_def Let_def d_def [symmetric, unfolded resolved_def] l
    by (cases d) (simp_all add: p)
  then show ?thesis by (simp add: d_def k_def)
qed

lemma walk_zero:
  assumes "encloses m (x m) (y m)"
  shows "walk 0 direction m =
         (case cell (df m) (y m) (x m) of StrVal s \<Rightarrow> (None, m) | _ \<Rightarrow> (Some TypeError, m))"
proof -
  have l: "look (Some 0) (Some d) m = Inr (Value (cell (df m) (y m) (x m)))" for d
    by (rule look_zero [OF assms])
  show ?thesis
    unfolding walk_def Let_def l
    by (cases "cell (df m) (y m) (x m)"; cases "case direction of None \<Rightarrow> heading m | Some d \<Rightarrow> d") simp_all
qed

lemma walk_backward_returns:
  assumes "encloses m (x m) (y m)" and "s < 0"
  shows "fst (walk s direction m) = None"
proof -
  define d where "d = resolved direction m"
  have "look (Some s) (Some d) m = look_scan (Some (- s)) (reverse d) m"
    using assms(2) by (simp add: look_backward resolved_def)
  then have l: "look (Some s) (Some d) m =
      Inr (Values (map (\<lambda>i. cell (df m) (y m + i * dy (reverse d)) (x m + i * dx (reverse d)))
         [1..min_steps (Some (- s)) (steps_to_boundary (reverse d) m)]))"
    by (simp add: look_scan_cells [OF assms(1)])
  show ?thesis
    unfolding walk_def Let_def d_def [symmetric, unfolded resolved_def] l
    by simp
qed

lemma walk_forward_enclosed:
  assumes "encloses m (x m) (y m)" and "1 \<le> s"
  shows "encloses (snd (walk s direction m)) (x (snd (walk s direction m))) (y (snd (walk s direction m)))"
proof -
  define d where "d = resolved direction m"
  define k where "k = min s (steps_to_boundary d m)"
  have "0 \<le> k" "k \<le> steps_to_boundary d m"
    using assms(2) steps_to_boundary_nonneg [OF assms(1), of d] by (simp_all add: k_def)
  then have "encloses m (x m + k * dx d) (y m + k * dy d)"
    by (intro path_cell_enclosed assms(1))
  then show ?thesis
    by (simp add: walk_forward [OF assms] d_def k_def encloses_def x_max_def y_max_def)
qed

subsection \<open>The writes of \<^verbatim>\<open>update\<close>\<close>

lemma update_loop_writes:
  assumes "df_wf d" and "distinct is" and "inj_on target (set is)"
    and "\<And>i. i \<in> set is \<Longrightarrow> 0 \<le> i \<and> i < int (length vals) \<and> in_frame d (target i)"
  shows "\<exists>d'. update_loop cast target vals is d = (None, d') \<and> df_wf d' \<and>
           df_width d' = df_width d \<and> df_height d' = df_height d \<and>
           (\<forall>c. column_dtype d' c = column_dtype d c) \<and>
           (\<forall>i \<in> set is. cell d' (fst (target i)) (snd (target i)) =
                cast (column_dtype d (snd (target i))) (vals ! nat i)) \<and>
           (\<forall>r c. 0 \<le> r \<and> 0 \<le> c \<and> (r, c) \<notin> target ` set is \<longrightarrow> cell d' r c = cell d r c)"
  using assms
proof (induction "is" arbitrary: d)
  case Nil
  then show ?case by simp
next
  case (Cons i "is")
  have i: "0 \<le> i" "i < int (length vals)" "in_frame d (target i)"
    using Cons.prems(4) [of i] by simp_all
  from df_setitem_in_range [OF Cons.prems(1), of "fst (target i)" "snd (target i)" cast "vals ! nat i"] i(3)
  obtain d1 where d1: "df_setitem cast d (fst (target i)) (snd (target i)) (vals ! nat i) = Inr d1"
    "df_wf d1" "df_width d1 = df_width d" "df_height d1 = df_height d"
    "\<And>c. column_dtype d1 c = column_dtype d c"
    "cell d1 (fst (target i)) (snd (target i)) = cast (column_dtype d (snd (target i))) (vals ! nat i)"
    "\<And>r c. 0 \<le> r \<Longrightarrow> 0 \<le> c \<Longrightarrow> (r, c) \<noteq> target i \<Longrightarrow> cell d1 r c = cell d r c"
    unfolding in_frame_def by (metis prod.collapse)
  have step: "update_loop cast target vals (i # is) d = update_loop cast target vals is d1"
    using i d1(1) by (simp add: list_item_in_range)
  have "\<exists>d'. update_loop cast target vals is d1 = (None, d') \<and> df_wf d' \<and>
           df_width d' = df_width d1 \<and> df_height d' = df_height d1 \<and>
           (\<forall>c. column_dtype d' c = column_dtype d1 c) \<and>
           (\<forall>i \<in> set is. cell d' (fst (target i)) (snd (target i)) =
                cast (column_dtype d1 (snd (target i))) (vals ! nat i)) \<and>
           (\<forall>r c. 0 \<le> r \<and> 0 \<le> c \<and> (r, c) \<notin> target ` set is \<longrightarrow> cell d' r c = cell d1 r c)"
  proof (rule Cons.IH [OF d1(2)])
    show "distinct is" using Cons.prems(2) by simp
    show "inj_on target (set is)" using Cons.prems(3) by (simp add: inj_on_def)
    show "0 \<le> j \<and> j < int (length vals) \<and> in_frame d1 (target j)" if "j \<in> set is" for j
      using Cons.prems(4) [of j] that d1(3,4) by (simp add: in_frame_def)
  qed
  then obtain d' where d': "update_loop cast target vals is d1 = (None, d')" "df_wf d'"
    "df_width d' = df_width d1" "df_height d' = df_height d1"
    "\<And>c. column_dtype d' c = column_dtype d1 c"
    "\<And>j. j \<in> set is \<Longrightarrow>
       cell d' (fst (target j)) (snd (target j)) = cast (column_dtype d1 (snd (target j))) (vals ! nat j)"
    "\<And>r c. 0 \<le> r \<Longrightarrow> 0 \<le> c \<Longrightarrow> (r, c) \<notin> target ` set is \<Longrightarrow> cell d' r c = cell d1 r c"
    by blast
  have fresh: "target i \<notin> target ` set is"
    using Cons.prems(2,3) by (auto simp add: inj_on_def)
  have head: "cell d' (fst (target i)) (snd (target i)) =
      cast (column_dtype d (snd (target i))) (vals ! nat i)"
  proof -
    have "cell d' (fst (target i)) (snd (target i)) = cell d1 (fst (target i)) (snd (target i))"
      using fresh i(3) by (intro d'(7)) (simp_all add: in_frame_def)
    then show ?thesis by (simp add: d1(6))
  qed
  have tail: "cell d' (fst (target j)) (snd (target j)) =
      cast (column_dtype d (snd (target j))) (vals ! nat j)" if "j \<in> set is" for j
    using d'(6) [OF that] by (simp add: d1(5))
  have types: "column_dtype d' c = column_dtype d c" for c
    by (simp add: d'(5) d1(5))
  have others: "cell d' r c = cell d r c"
    if "0 \<le> r" "0 \<le> c" "(r, c) \<notin> target ` set (i # is)" for r c
  proof -
    have "cell d' r c = cell d1 r c" using that by (intro d'(7)) simp_all
    also have "\<dots> = cell d r c" using that by (intro d1(7)) auto
    finally show ?thesis .
  qed
  show ?case
    unfolding step
    using d'(1,2,3,4) d1(3,4) types head tail others by auto
qed

lemma update_loop_range:
  assumes "df_wf d" and "inj target"
    and "\<And>i. 0 \<le> i \<Longrightarrow> i < n \<Longrightarrow> i < int (length vals) \<and> in_frame d (target i)"
  shows "\<exists>d'. update_loop cast target vals [0..n - 1] d = (None, d') \<and> df_wf d' \<and>
           df_width d' = df_width d \<and> df_height d' = df_height d \<and>
           (\<forall>c. column_dtype d' c = column_dtype d c) \<and>
           (\<forall>i. 0 \<le> i \<and> i < n \<longrightarrow> cell d' (fst (target i)) (snd (target i)) =
                cast (column_dtype d (snd (target i))) (vals ! nat i)) \<and>
           (\<forall>r c. 0 \<le> r \<and> 0 \<le> c \<and> (\<forall>i. 0 \<le> i \<and> i < n \<longrightarrow> (r, c) \<noteq> target i) \<longrightarrow>
                  cell d' r c = cell d r c)"
proof -
  have "\<exists>d'. update_loop cast target vals [0..n - 1] d = (None, d') \<and> df_wf d' \<and>
           df_width d' = df_width d \<and> df_height d' = df_height d \<and>
           (\<forall>c. column_dtype d' c = column_dtype d c) \<and>
           (\<forall>i \<in> set [0..n - 1]. cell d' (fst (target i)) (snd (target i)) =
                cast (column_dtype d (snd (target i))) (vals ! nat i)) \<and>
           (\<forall>r c. 0 \<le> r \<and> 0 \<le> c \<and> (r, c) \<notin> target ` set [0..n - 1] \<longrightarrow> cell d' r c = cell d r c)"
  proof (rule update_loop_writes [OF assms(1)])
    show "distinct [0..n - 1]" by simp
    show "inj_on target (set [0..n - 1])" using assms(2) by (rule inj_on_subset) simp
    show "0 \<le> i \<and> i < int (length vals) \<and> in_frame d (target i)" if "i \<in> set [0..n - 1]" for i
      using that assms(3) [of i] by simp
  qed
  then obtain d' where d': "update_loop cast target vals [0..n - 1] d = (None, d')" "df_wf d'"
    "df_width d' = df_width d" "df_height d' = df_height d"
    "\<And>c. column_dtype d' c = column_dtype d c"
    "\<And>i. i \<in> set [0..n - 1] \<Longrightarrow> cell d' (fst (target i)) (snd (target i)) =
        cast (column_dtype d (snd (target i))) (vals ! nat i)"
    "\<And>r c. 0 \<le> r \<Longrightarrow> 0 \<le> c \<Longrightarrow> (r, c) \<notin> target ` set [0..n - 1] \<Longrightarrow> cell d' r c = cell d r c"
    by blast
  have a: "cell d' (fst (target i)) (snd (target i)) = cast (column_dtype d (snd (target i))) (vals ! nat i)"
    if "0 \<le> i" "i < n" for i
    using that by (intro d'(6)) simp
  have b: "cell d' r c = cell d r c"
    if "0 \<le> r" "0 \<le> c" "\<forall>i. 0 \<le> i \<and> i < n \<longrightarrow> (r, c) \<noteq> target i" for r c
    using that by (intro d'(7)) auto
  show ?thesis using d'(1,2,3,4,5) a b by blast
qed

lemma update_loop_cong:
  "t = t' \<Longrightarrow> k = k' \<Longrightarrow>
   update_loop cast t vals [0..k - 1] d = update_loop cast t' vals [0..k' - 1] d"
  by simp

lemma update_scan_loop:
  "update_scan cast vals offset d m =
   update_loop cast (\<lambda>i. (y m + (offset + i) * dy d, x m + (offset + i) * dx d)) vals
     [0..min (int (length vals)) (steps_to_boundary d m + 1 - offset) - 1] (df m)"
proof (cases d)
  case N
  show ?thesis unfolding N update_scan_def Let_def Direction.case
    by (rule update_loop_cong) (simp_all add: fun_eq_iff)
next
  case NE
  show ?thesis unfolding NE update_scan_def Let_def Direction.case
    by (rule update_loop_cong) (simp_all add: fun_eq_iff)
next
  case E
  show ?thesis unfolding E update_scan_def Let_def Direction.case
    by (rule update_loop_cong) (simp_all add: fun_eq_iff)
next
  case SE
  show ?thesis unfolding SE update_scan_def Let_def Direction.case
    by (rule update_loop_cong) (simp_all add: fun_eq_iff)
next
  case S
  show ?thesis unfolding S update_scan_def Let_def Direction.case
    by (rule update_loop_cong) (simp_all add: fun_eq_iff)
next
  case SW
  show ?thesis unfolding SW update_scan_def Let_def Direction.case
    by (rule update_loop_cong) (simp_all add: fun_eq_iff)
next
  case W
  show ?thesis unfolding W update_scan_def Let_def Direction.case
    by (rule update_loop_cong) (simp_all add: fun_eq_iff)
next
  case NW
  show ?thesis unfolding NW update_scan_def Let_def Direction.case
    by (rule update_loop_cong) (simp_all add: fun_eq_iff)
qed

lemma inj_path_target: "inj (\<lambda>i. (y m + (offset + i) * dy d, x m + (offset + i) * dx d))"
  by (cases d) (simp_all add: inj_on_def)

lemma update_scan_writes:
  assumes "df_wf (df m)" and "encloses m (x m) (y m)" and "0 \<le> offset"
  shows "\<exists>d'. update_scan cast vals offset d m = (None, d') \<and> df_wf d' \<and>
           df_width d' = df_width (df m) \<and> df_height d' = df_height (df m) \<and>
           (\<forall>c. column_dtype d' c = column_dtype (df m) c) \<and>
           (\<forall>i. 0 \<le> i \<and> i < min (int (length vals)) (cells_beyond offset d m) \<longrightarrow>
                cell d' (y m + (offset + i) * dy d) (x m + (offset + i) * dx d) =
                cast (column_dtype (df m) (x m + (offset + i) * dx d)) (vals ! nat i)) \<and>
           (\<forall>r c. 0 \<le> r \<and> 0 \<le> c \<and>
                  (\<forall>i. 0 \<le> i \<and> i < min (int (length vals)) (cells_beyond offset d m) \<longrightarrow>
                       (r, c) \<noteq> (y m + (offset + i) * dy d, x m + (offset + i) * dx d)) \<longrightarrow>
                  cell d' r c = cell (df m) r c)"
proof -
  define n where "n = min (int (length vals)) (steps_to_boundary d m + 1 - offset)"
  define target where "target = (\<lambda>i. (y m + (offset + i) * dy d, x m + (offset + i) * dx d))"
  have iff: "(0 \<le> i \<and> i < min (int (length vals)) (cells_beyond offset d m)) = (0 \<le> i \<and> i < n)" for i
    by (auto simp add: n_def cells_beyond_def)
  have frame: "i < int (length vals) \<and> in_frame (df m) (target i)" if "0 \<le> i" "i < n" for i
  proof -
    have "encloses m (x m + (offset + i) * dx d) (y m + (offset + i) * dy d)"
      using that assms(3) by (intro path_cell_enclosed assms(2)) (simp_all add: n_def)
    then show ?thesis
      using that by (simp add: n_def target_def in_frame_def encloses_def in_range_def x_max_def y_max_def)
  qed
  have "inj target" unfolding target_def by (rule inj_path_target)
  from update_loop_range [OF assms(1) this frame, of n cast]
  obtain d' where d': "update_loop cast target vals [0..n - 1] (df m) = (None, d')" "df_wf d'"
    "df_width d' = df_width (df m)" "df_height d' = df_height (df m)"
    "\<And>c. column_dtype d' c = column_dtype (df m) c"
    "\<And>i. 0 \<le> i \<Longrightarrow> i < n \<Longrightarrow> cell d' (fst (target i)) (snd (target i)) =
        cast (column_dtype (df m) (snd (target i))) (vals ! nat i)"
    "\<And>r c. 0 \<le> r \<Longrightarrow> 0 \<le> c \<Longrightarrow> (\<forall>i. 0 \<le> i \<and> i < n \<longrightarrow> (r, c) \<noteq> target i) \<Longrightarrow>
        cell d' r c = cell (df m) r c"
    by blast
  have 1: "update_scan cast vals offset d m = (None, d')"
    using d'(1) by (simp add: update_scan_loop target_def n_def)
  have 5: "cell d' (y m + (offset + i) * dy d) (x m + (offset + i) * dx d) =
      cast (column_dtype (df m) (x m + (offset + i) * dx d)) (vals ! nat i)"
    if "0 \<le> i" "i < n" for i
    using d'(6) [OF that] by (simp add: target_def)
  have 6: "cell d' r c = cell (df m) r c"
    if "0 \<le> r" "0 \<le> c"
      "\<forall>i. 0 \<le> i \<and> i < n \<longrightarrow> (r, c) \<noteq> (y m + (offset + i) * dy d, x m + (offset + i) * dx d)" for r c
    using that by (intro d'(7)) (simp_all add: target_def)
  show ?thesis
    unfolding iff using 1 d'(2,3,4,5) 5 6 by blast
qed

lemma update_resolved:
  "update cast vals offset direction m =
   (case update_scan cast vals \<bar>offset\<bar>
           (if offset < 0 then reverse (resolved direction m) else resolved direction m) m of
      (r, d') \<Rightarrow> (r, m\<lparr>df := d'\<rparr>))"
  by (simp add: update_def resolved_def Direction_of_reverse)

lemma update_scan_empty: "update_scan cast [] offset d m = (None, df m)"
  by (simp add: update_scan_loop)

lemma polars_cast_own_type:
  "polars_cast String (StrVal s) = StrVal s"
  "- (2 ^ 63) \<le> n \<Longrightarrow> n < 2 ^ 63 \<Longrightarrow> polars_cast Int64 (IntVal n) = IntVal n"
  "polars_cast t NoneVal = NoneVal"
  by simp_all

section \<open>The claims\<close>

text \<open>
  Claim C1. For an in-bounds cursor, a direction \<open>d\<close> and a step count \<open>s \<ge> 1\<close> or the
  omitted (unbounded) step count, \<^verbatim>\<open>look\<close> returns the list of the cells 1, 2, ..., \<open>k\<close>
  steps from the cursor in direction \<open>d\<close>, in that order, where \<open>k\<close> is the minimum of
  \<open>s\<close> and the number of steps to the grid boundary (for a diagonal, the minimum of the
  two axis-wise distances). Its length is \<open>k\<close>, and it is empty when no step is
  available. \<^verbatim>\<open>look\<close> returns a value only: it has no access to the object's state.
\<close>

theorem look_scans_to_boundary:
  assumes "df_wf (df m)" and "encloses m (x m) (y m)"
    and "steps = None \<or> (\<exists>s. steps = Some s \<and> 1 \<le> s)"
  shows "let d = (case direction of None \<Rightarrow> heading m | Some d \<Rightarrow> d);
             k = (case steps of None \<Rightarrow> steps_to_boundary d m
                  | Some s \<Rightarrow> min s (steps_to_boundary d m))
         in \<exists>vs. look steps direction m = Inr (Values vs) \<and>
                 int (length vs) = k \<and>
                 vs = map (\<lambda>i. cell (df m) (y m + i * dy d) (x m + i * dx d)) [1..k] \<and>
                 (\<forall>i. 1 \<le> i \<and> i \<le> k \<longrightarrow>
                    getitem m (x m + i * dx d, y m + i * dy d) = Inr (vs ! nat (i - 1))) \<and>
                 (steps_to_boundary d m = 0 \<longrightarrow> vs = [])"
proof -
  define d where "d = resolved direction m"
  define k where "k = min_steps steps (steps_to_boundary d m)"
  define vs where "vs = map (\<lambda>i. cell (df m) (y m + i * dy d) (x m + i * dx d)) [1..k]"
  have k0: "0 \<le> k"
    using assms(3) steps_to_boundary_nonneg [OF assms(2), of d]
    by (auto simp add: k_def min_steps_def)
  have kle: "k \<le> steps_to_boundary d m"
    unfolding k_def by (rule min_steps_le)
  have 1: "look steps direction m = Inr (Values vs)"
    unfolding vs_def k_def d_def
    by (simp only: look_forward [OF assms(3)] look_scan_cells [OF assms(2)])
  have 2: "int (length vs) = k"
    using k0 by (simp add: vs_def)
  have 3: "getitem m (x m + i * dx d, y m + i * dy d) = Inr (vs ! nat (i - 1))"
    if "1 \<le> i" "i \<le> k" for i
  proof -
    have "encloses m (x m + i * dx d) (y m + i * dy d)"
      using that kle by (intro path_cell_enclosed assms(2)) simp_all
    then have "getitem m (x m + i * dx d, y m + i * dy d) = Inr (cell (df m) (y m + i * dy d) (x m + i * dx d))"
      by (rule getitem_enclosed)
    moreover have "vs ! nat (i - 1) = cell (df m) (y m + i * dy d) (x m + i * dx d)"
      using that by (simp add: vs_def)
    ultimately show ?thesis by simp
  qed
  have 4: "vs = []" if "steps_to_boundary d m = 0"
    using that kle k0 by (simp add: vs_def)
  have d_eq: "(case direction of None \<Rightarrow> heading m | Some d \<Rightarrow> d) = d"
    by (simp add: d_def resolved_def)
  have k_eq: "(case steps of None \<Rightarrow> steps_to_boundary d m
               | Some s \<Rightarrow> min s (steps_to_boundary d m)) = k"
    by (simp add: k_def min_steps_def)
  show ?thesis
    unfolding Let_def d_eq k_eq
    using 1 2 3 4 vs_def by blast
qed

text \<open>
  Witness of C1: from the top-left corner of the example grid, looking five steps east
  yields the two cells that remain in the row.
\<close>

theorem look_scans_to_boundary_witness:
  "df_wf (df example_map) \<and> encloses example_map (x example_map) (y example_map) \<and>
   (\<exists>vs. look (Some 5) (Some E) example_map = Inr (Values vs) \<and> int (length vs) = 2 \<and>
      getitem example_map (1, 0) = Inr (vs ! 0) \<and> getitem example_map (2, 0) = Inr (vs ! 1))"
proof -
  have h1: "df_wf (df example_map)" by code_simp
  have h2: "encloses example_map (x example_map) (y example_map)" by code_simp
  have h3: "Some (5::int) = None \<or> (\<exists>s. Some (5::int) = Some s \<and> 1 \<le> s)" by simp
  have k: "min 5 (steps_to_boundary E example_map) = 2" by code_simp
  have c: "x example_map = 0" "y example_map = 0" by (simp_all add: example_map_def)
  note t = look_scans_to_boundary [OF h1 h2 h3, of "Some E", unfolded Let_def option.case k c]
  then obtain vs where vs: "look (Some 5) (Some E) example_map = Inr (Values vs)"
    "int (length vs) = 2"
    "\<And>i. 1 \<le> i \<Longrightarrow> i \<le> 2 \<Longrightarrow>
       getitem example_map (0 + i * dx E, 0 + i * dy E) = Inr (vs ! nat (i - 1))"
    by blast
  from vs(3) [of 1] vs(3) [of 2]
  have "getitem example_map (1, 0) = Inr (vs ! 0)" "getitem example_map (2, 0) = Inr (vs ! 1)"
    by simp_all
  then show ?thesis using h1 h2 vs(1,2) by blast
qed

text \<open>
  Counterexample to C2 as stated (\<^verbatim>\<open>update\<close> writes \<open>values[i]\<close> into the cell): the
  integer 7 written at the cursor of the grid of characters is stored in a string column,
  and the cell reads back as the string \<open>''7''\<close>, not as the integer.
\<close>

theorem update_converts_value_counterexample:
  "update polars_cast [IntVal 7] 0 (Some S) text_map =
     (None, text_map\<lparr>df := [Series String [StrVal ''7'', StrVal ''.'']]\<rparr>) \<and>
   getitem (text_map\<lparr>df := [Series String [StrVal ''7'', StrVal ''.'']]\<rparr>) (0, 0) = Inr (StrVal ''7'') \<and>
   StrVal ''7'' \<noteq> [IntVal 7] ! 0"
  by code_simp

text \<open>
  Claim C2, amended. For an in-bounds cursor, \<^verbatim>\<open>update(values, offset, direction)\<close> returns
  without raising and writes \<open>values[i]\<close>, converted to the data type of the column it
  lands in, into the cell \<open>offset + i\<close> steps from the cursor in the resolved direction
  for exactly \<open>i = 0, ..., k - 1\<close>, where \<open>k\<close> is the minimum of the number of values and
  the number of cells available at that distance or beyond; the rest of the values is
  dropped. A negative offset reverses the direction and continues with its absolute
  value. Every other cell, the shape, the column types, the cursor and the heading are
  unchanged, and an empty list of values changes nothing. Where the conversion leaves
  the values as they are, the cells read back \<open>values[i]\<close> itself. The statement holds
  for whatever conversion \<open>cast\<close> polars applies.
\<close>

theorem update_writes_converted_prefix:
  assumes "df_wf (df m)" and "encloses m (x m) (y m)"
  shows "let d0 = (case direction of None \<Rightarrow> heading m | Some d \<Rightarrow> d);
             d = (if offset < 0 then reverse d0 else d0);
             offs = \<bar>offset\<bar>;
             k = min (int (length vals)) (cells_beyond offs d m)
         in \<exists>m'. update cast vals offset direction m = (None, m') \<and>
              x m' = x m \<and> y m' = y m \<and> heading m' = heading m \<and> shape m' = shape m \<and>
              df_wf (df m') \<and>
              (\<forall>c. column_dtype (df m') c = column_dtype (df m) c) \<and>
              (\<forall>i. 0 \<le> i \<and> i < k \<longrightarrow>
                 getitem m' (x m + (offs + i) * dx d, y m + (offs + i) * dy d) =
                 Inr (cast (column_dtype (df m) (x m + (offs + i) * dx d)) (vals ! nat i))) \<and>
              ((\<forall>i. 0 \<le> i \<and> i < k \<longrightarrow>
                  cast (column_dtype (df m) (x m + (offs + i) * dx d)) (vals ! nat i) = vals ! nat i) \<longrightarrow>
               (\<forall>i. 0 \<le> i \<and> i < k \<longrightarrow>
                  getitem m' (x m + (offs + i) * dx d, y m + (offs + i) * dy d) = Inr (vals ! nat i))) \<and>
              (\<forall>cx cy. (\<forall>i. 0 \<le> i \<and> i < k \<longrightarrow>
                            (cx, cy) \<noteq> (x m + (offs + i) * dx d, y m + (offs + i) * dy d)) \<longrightarrow>
                 getitem m' (cx, cy) = getitem m (cx, cy)) \<and>
              (vals = [] \<longrightarrow> m' = m)"
proof -
  define d where "d = (if offset < 0 then reverse (resolved direction m) else resolved direction m)"
  define offs where "offs = \<bar>offset\<bar>"
  define k where "k = min (int (length vals)) (cells_beyond offs d m)"
  have o0: "0 \<le> offs" by (simp add: offs_def)
  from update_scan_writes [OF assms o0, of cast vals d]
  obtain d' where d': "update_scan cast vals offs d m = (None, d')" "df_wf d'"
    "df_width d' = df_width (df m)" "df_height d' = df_height (df m)"
    "\<And>c. column_dtype d' c = column_dtype (df m) c"
    "\<And>i. 0 \<le> i \<Longrightarrow> i < k \<Longrightarrow>
       cell d' (y m + (offs + i) * dy d) (x m + (offs + i) * dx d) =
       cast (column_dtype (df m) (x m + (offs + i) * dx d)) (vals ! nat i)"
    "\<And>r c. 0 \<le> r \<Longrightarrow> 0 \<le> c \<Longrightarrow>
       (\<forall>i. 0 \<le> i \<and> i < k \<longrightarrow> (r, c) \<noteq> (y m + (offs + i) * dy d, x m + (offs + i) * dx d)) \<Longrightarrow>
       cell d' r c = cell (df m) r c"
    unfolding k_def by blast
  define m' where "m' = m\<lparr>df := d'\<rparr>"
  have enc: "encloses m' cx cy = encloses m cx cy" for cx cy
    by (simp add: encloses_def x_max_def y_max_def m'_def d'(3,4))
  have 1: "update cast vals offset direction m = (None, m')"
    by (simp add: update_resolved d_def [symmetric] offs_def [symmetric] d'(1) m'_def)
  have 2: "x m' = x m" "y m' = y m" "heading m' = heading m" "shape m' = shape m" "df_wf (df m')"
    by (simp_all add: m'_def shape_def x_max_def y_max_def d'(2,3,4))
  have t: "column_dtype (df m') c = column_dtype (df m) c" for c
    by (simp add: m'_def d'(5))
  have 3: "getitem m' (x m + (offs + i) * dx d, y m + (offs + i) * dy d) =
      Inr (cast (column_dtype (df m) (x m + (offs + i) * dx d)) (vals ! nat i))"
    if "0 \<le> i" "i < k" for i
  proof -
    have "encloses m (x m + (offs + i) * dx d) (y m + (offs + i) * dy d)"
      using that o0 by (intro path_cell_enclosed assms(2)) (auto simp add: k_def cells_beyond_def)
    then have "encloses m' (x m + (offs + i) * dx d) (y m + (offs + i) * dy d)"
      by (simp add: enc)
    then have "getitem m' (x m + (offs + i) * dx d, y m + (offs + i) * dy d) =
        Inr (cell (df m') (y m + (offs + i) * dy d) (x m + (offs + i) * dx d))"
      by (rule getitem_enclosed)
    then show ?thesis using d'(6) [OF that] by (simp add: m'_def)
  qed
  have same: "\<forall>i. 0 \<le> i \<and> i < k \<longrightarrow>
      getitem m' (x m + (offs + i) * dx d, y m + (offs + i) * dy d) = Inr (vals ! nat i)"
    if "\<forall>i. 0 \<le> i \<and> i < k \<longrightarrow>
      cast (column_dtype (df m) (x m + (offs + i) * dx d)) (vals ! nat i) = vals ! nat i"
    using that 3 by simp
  have 4: "getitem m' (cx, cy) = getitem m (cx, cy)"
    if "\<forall>i. 0 \<le> i \<and> i < k \<longrightarrow> (cx, cy) \<noteq> (x m + (offs + i) * dx d, y m + (offs + i) * dy d)"
    for cx cy
  proof (cases "encloses m cx cy")
    case True
    then have p: "0 \<le> cy" "0 \<le> cx" by (simp_all add: encloses_def in_range_def)
    have c: "cell d' cy cx = cell (df m) cy cx"
      using that by (intro d'(7) p) auto
    have "encloses m' cx cy" using True by (simp add: enc)
    then have "getitem m' (cx, cy) = Inr (cell (df m') cy cx)"
      by (rule getitem_enclosed)
    then show ?thesis
      using True c by (simp add: getitem_enclosed m'_def)
  next
    case False
    then show ?thesis by (simp add: getitem_outside enc)
  qed
  have 5: "m' = m" if "vals = []"
    using d'(1) that by (simp add: update_scan_empty m'_def)
  have d_eq: "(if offset < 0 then reverse (case direction of None \<Rightarrow> heading m | Some d \<Rightarrow> d)
               else (case direction of None \<Rightarrow> heading m | Some d \<Rightarrow> d)) = d"
    by (simp add: d_def resolved_def)
  show ?thesis
    unfolding Let_def d_eq offs_def [symmetric] k_def [symmetric]
    using 1 2 t 3 same 4 5 by blast
qed

text \<open>
  Witness of C2: four integers written east from offset 1 at the top-left corner of the
  example grid, into integer columns: two of them fit, and they are stored as they are.
\<close>

theorem update_writes_converted_prefix_witness:
  "df_wf (df example_map) \<and> encloses example_map (x example_map) (y example_map) \<and>
   (\<exists>m'. update polars_cast [IntVal 7, IntVal 8, IntVal 9, IntVal 5] 1 (Some E) example_map = (None, m') \<and>
      getitem m' (1, 0) = Inr (IntVal 7) \<and> getitem m' (2, 0) = Inr (IntVal 8) \<and>
      getitem m' (0, 0) = getitem example_map (0, 0) \<and> position m' = (0, 0))"
proof -
  have h1: "df_wf (df example_map)" by code_simp
  have h2: "encloses example_map (x example_map) (y example_map)" by code_simp
  have d: "(if (1::int) < 0 then reverse E else E) = E" "\<bar>1::int\<bar> = 1" by simp_all
  have k: "min (int (length [IntVal 7, IntVal 8, IntVal 9, IntVal 5])) (cells_beyond 1 E example_map) = 2"
    by code_simp
  have c: "x example_map = 0" "y example_map = 0" by (simp_all add: example_map_def)
  have ty: "column_dtype (df example_map) 1 = Int64" "column_dtype (df example_map) 2 = Int64"
    by code_simp+
  note t = update_writes_converted_prefix [OF h1 h2,
      of "Some E" 1 "[IntVal 7, IntVal 8, IntVal 9, IntVal 5]" polars_cast,
      unfolded Let_def option.case d k c]
  then obtain m' where m':
    "update polars_cast [IntVal 7, IntVal 8, IntVal 9, IntVal 5] 1 (Some E) example_map = (None, m')"
    "x m' = 0" "y m' = 0"
    "\<And>i. 0 \<le> i \<Longrightarrow> i < 2 \<Longrightarrow>
       getitem m' (0 + (1 + i) * dx E, 0 + (1 + i) * dy E) =
       Inr (polars_cast (column_dtype (df example_map) (0 + (1 + i) * dx E))
              ([IntVal 7, IntVal 8, IntVal 9, IntVal 5] ! nat i))"
    "\<And>cx cy. (\<forall>i. 0 \<le> i \<and> i < 2 \<longrightarrow> (cx, cy) \<noteq> (0 + (1 + i) * dx E, 0 + (1 + i) * dy E)) \<Longrightarrow>
       getitem m' (cx, cy) = getitem example_map (cx, cy)"
    by blast
  from m'(4) [of 0] m'(4) [of 1]
  have a: "getitem m' (1, 0) = Inr (IntVal 7)" "getitem m' (2, 0) = Inr (IntVal 8)"
    by (simp_all add: ty)
  from m'(5) [of 0 0] have b: "getitem m' (0, 0) = getitem example_map (0, 0)"
    by simp
  show ?thesis using h1 h2 m'(1,2,3) a b by (auto simp add: position_def)
qed

text \<open>
  Counterexample to C3 as stated (for every step count \<open>s \<ge> 0\<close>): with \<open>s = 0\<close>,
  \<^verbatim>\<open>look\<close> returns the bare cell under the cursor, an integer here, and \<^verbatim>\<open>walk\<close> raises
  \<^verbatim>\<open>TypeError\<close> when it takes its length.
\<close>

theorem walk_zero_steps_counterexample:
  "look (Some 0) (Some E) example_map = Inr (Value (IntVal 0)) \<and>
   walk 0 (Some E) example_map = (Some TypeError, example_map)"
  by code_simp

text \<open>
  Claim C3, amended. For an in-bounds cursor, a direction \<open>d\<close> and a step count \<open>s \<ge> 1\<close>,
  \<^verbatim>\<open>walk(s, d)\<close> returns without raising and moves the cursor by the length of
  \<^verbatim>\<open>look(s, d)\<close>, which is the minimum of \<open>s\<close> and the number of steps to the boundary,
  along each axis the direction involves (both axes, by the same amount, for a diagonal);
  the heading and the grid are unchanged.
\<close>

theorem walk_moves_look_length:
  assumes "df_wf (df m)" and "encloses m (x m) (y m)" and "1 \<le> s"
  shows "let d = (case direction of None \<Rightarrow> heading m | Some d \<Rightarrow> d)
         in \<exists>vs. look (Some s) direction m = Inr (Values vs) \<and>
              int (length vs) = min s (steps_to_boundary d m) \<and>
              walk s direction m =
                (None, m\<lparr>x := x m + int (length vs) * dx d, y := y m + int (length vs) * dy d\<rparr>) \<and>
              heading (snd (walk s direction m)) = heading m \<and>
              df (snd (walk s direction m)) = df m"
proof -
  define d where "d = resolved direction m"
  define k where "k = min s (steps_to_boundary d m)"
  define vs where "vs = map (\<lambda>i. cell (df m) (y m + i * dy d) (x m + i * dx d)) [1..k]"
  have k0: "0 \<le> k"
    using assms(3) steps_to_boundary_nonneg [OF assms(2), of d] by (simp add: k_def)
  have 1: "look (Some s) direction m = Inr (Values vs)"
    using assms(3)
    by (simp add: look_forward look_scan_cells [OF assms(2)] vs_def k_def d_def min_steps_def)
  have 2: "int (length vs) = k" using k0 by (simp add: vs_def)
  have 3: "walk s direction m = (None, m\<lparr>x := x m + k * dx d, y := y m + k * dy d\<rparr>)"
    by (simp add: walk_forward [OF assms(2,3)] d_def k_def)
  have d_eq: "(case direction of None \<Rightarrow> heading m | Some d \<Rightarrow> d) = d"
    by (simp add: d_def resolved_def)
  have 4: "heading (snd (walk s direction m)) = heading m" "df (snd (walk s direction m)) = df m"
    by (simp_all add: 3)
  show ?thesis
    unfolding Let_def d_eq k_def [symmetric]
    using 1 2 3 4 by auto
qed

text \<open>
  Witness of C3: five steps south-east from the top-left corner of the example grid move
  the cursor one cell along both axes, to the bottom row.
\<close>

theorem walk_moves_look_length_witness:
  "df_wf (df example_map) \<and> encloses example_map (x example_map) (y example_map) \<and> (1::int) \<le> 5 \<and>
   (\<exists>vs. look (Some 5) (Some SE) example_map = Inr (Values vs) \<and> int (length vs) = 1 \<and>
      walk 5 (Some SE) example_map = (None, example_map\<lparr>x := 1, y := 1\<rparr>))"
proof -
  have h1: "df_wf (df example_map)" by code_simp
  have h2: "encloses example_map (x example_map) (y example_map)" by code_simp
  have h3: "(1::int) \<le> 5" by simp
  have k: "min 5 (steps_to_boundary SE example_map) = 1" by code_simp
  have c: "x example_map = 0" "y example_map = 0" by (simp_all add: example_map_def)
  note t = walk_moves_look_length [OF h1 h2 h3, of "Some SE", unfolded Let_def option.case k c]
  then obtain vs where vs: "look (Some 5) (Some SE) example_map = Inr (Values vs)"
    "int (length vs) = 1"
    "walk 5 (Some SE) example_map =
       (None, example_map\<lparr>x := 0 + int (length vs) * dx SE, y := 0 + int (length vs) * dy SE\<rparr>)"
    by blast
  from vs(3) have "walk 5 (Some SE) example_map = (None, example_map\<lparr>x := 1, y := 1\<rparr>)"
    unfolding vs(2) by simp
  then show ?thesis using h1 h2 vs(1,2) by auto
qed

text \<open>
  Claim C4 (after \<^verbatim>\<open>walk(steps, direction)\<close> the cursor is still inside the grid, for
  every integer step count) fails in the code for a negative step count. On a grid of one
  cell, \<^verbatim>\<open>walk(-1, N)\<close> looks south, finds no cell, takes \<open>min (-1) 0 = -1\<close> as the path
  length and subtracts it from \<open>y\<close>: the cursor ends at \<open>y = 1\<close>, below the only row.
\<close>

theorem walk_negative_steps_leaves_grid:
  "encloses unit_map (x unit_map) (y unit_map) \<and>
   look (Some (- 1)) (Some N) unit_map = Inr (Values []) \<and>
   walk (- 1) (Some N) unit_map = (None, unit_map\<lparr>y := 1\<rparr>) \<and>
   y_max (unit_map\<lparr>y := 1\<rparr>) = 1 \<and>
   \<not> encloses (unit_map\<lparr>y := 1\<rparr>) (x (unit_map\<lparr>y := 1\<rparr>)) (y (unit_map\<lparr>y := 1\<rparr>))"
  by code_simp

text \<open>
  Claim C5 (\<^verbatim>\<open>rotate\<close> turns by \<open>degrees / 45\<close> rounded half away from zero) fails in the
  code: \<^verbatim>\<open>degrees // 45\<close> is already an integer, so the half that is added is truncated
  away again and the step count is the floor of \<open>degrees / 45\<close>. For 44 degrees the rounding
  of the claim gives one step, from N to NE; the code turns by no step.
\<close>

theorem rotate_44_degrees_keeps_heading:
  "round_half_away_steps 44 = 1 \<and>
   Direction_of ((direction_value N + round_half_away_steps 44) mod 8) = Inr NE \<and>
   rotate_steps 44 = 0 \<and>
   rotate 44 unit_map = (None, unit_map) \<and> heading unit_map = N"
  by code_simp

text \<open>
  Claim C6. For a step count \<open>s > 0\<close> and a direction \<open>d\<close>, \<^verbatim>\<open>look(-s, d)\<close> returns what
  \<^verbatim>\<open>look(s, reverse(d))\<close> returns, where the reverse of \<open>d\<close> has the value \<open>(d + 4) mod 8\<close>.
  The equation holds for every cursor, also one outside the grid.
\<close>

theorem look_negative_steps_reverse:
  "0 < s \<Longrightarrow>
   look (Some (- s)) (Some d) m = look (Some s) (Some (reverse d)) m \<and>
   direction_value (reverse d) = (direction_value d + 4) mod 8"
  by (simp add: look_backward look_forward resolved_def reverse_value)

text \<open>
  Witness of C6: at the top-left corner of the example grid, two steps backwards while
  facing west are the two cells to the east.
\<close>

theorem look_negative_steps_reverse_witness:
  "(0::int) < 2 \<and>
   look (Some (- 2)) (Some W) example_map = look (Some 2) (Some E) example_map \<and>
   look (Some 2) (Some E) example_map = Inr (Values [IntVal 10, IntVal 20])"
proof -
  have h: "(0::int) < 2" by simp
  have e: "look (Some 2) (Some E) example_map = Inr (Values [IntVal 10, IntVal 20])"
    by code_simp
  show ?thesis
    using h e look_negative_steps_reverse [OF h, of W example_map] by simp
qed

text \<open>
  Claim C7 (\<^verbatim>\<open>rotate(d)\<close> followed by \<^verbatim>\<open>rotate(-d)\<close> restores the heading, for every \<open>d\<close>)
  fails in the code when \<open>d\<close> is not a multiple of 45: both step counts are floors, and
  the floors of \<open>d / 45\<close> and \<open>- d / 45\<close> then add up to \<open>- 1\<close>. From heading N,
  \<^verbatim>\<open>rotate(10)\<close> keeps N and \<^verbatim>\<open>rotate(-10)\<close> turns to NW. The concrete cases of the claim
  hold: 45 degrees from N give NE, \<open>- 45\<close> degrees give NW, 360 degrees give N.
\<close>

theorem rotate_10_degrees_and_back:
  "rotate 10 unit_map = (None, unit_map) \<and>
   rotate (- 10) unit_map = (None, unit_map\<lparr>heading := NW\<rparr>) \<and>
   heading unit_map = N \<and>
   rotate 45 unit_map = (None, unit_map\<lparr>heading := NE\<rparr>) \<and>
   rotate (- 45) unit_map = (None, unit_map\<lparr>heading := NW\<rparr>) \<and>
   rotate 360 unit_map = (None, unit_map)"
  by code_simp

text \<open>
  Counterexample to C8 as stated (\<^verbatim>\<open>set\<close> fails with \<^verbatim>\<open>OutOfBounds\<close> outside the grid).
  The class defines no item assignment: setting the cell at (5, 0), outside the grid of
  one cell, fails with \<^verbatim>\<open>TypeError\<close>, as it does at (0, 0), inside the grid.
\<close>

theorem setitem_type_error_counterexample:
  "\<not> encloses unit_map 5 0 \<and>
   setitem unit_map (5, 0) (IntVal 7) = (Some TypeError, unit_map) \<and>
   encloses unit_map 0 0 \<and>
   setitem unit_map (0, 0) (IntVal 7) = (Some TypeError, unit_map)"
  by code_simp

text \<open>
  Claim C8, amended. For a grid of shape (W, H), \<^verbatim>\<open>get(x, y)\<close> returns the cell when
  \<open>0 \<le> x < W\<close> and \<open>0 \<le> y < H\<close>, and fails with \<^verbatim>\<open>OutOfBounds\<close> for every other
  coordinate, negative ones included; it is a read and changes nothing. The class has no
  \<^verbatim>\<open>set\<close>: an item assignment fails with \<^verbatim>\<open>TypeError\<close> at every coordinate, inside the
  grid or outside, and changes nothing. The position setter moves the cursor to an
  enclosed target, and fails with \<^verbatim>\<open>OutOfBounds\<close> for any other target, leaving the object
  as it was.
\<close>

theorem getitem_and_position_bounds:
  assumes "df_wf (df m)"
  shows "(0 \<le> i \<and> i < x_max m \<and> 0 \<le> j \<and> j < y_max m \<longrightarrow>
            getitem m (i, j) = Inr (cells (df m ! nat i) ! nat j) \<and>
            nat i < length (df m) \<and> nat j < length (cells (df m ! nat i)) \<and>
            set_position (i, j) m = (None, m\<lparr>x := i, y := j\<rparr>)) \<and>
         (\<not> (0 \<le> i \<and> i < x_max m \<and> 0 \<le> j \<and> j < y_max m) \<longrightarrow>
            getitem m (i, j) = Inl OutOfBounds \<and>
            set_position (i, j) m = (Some OutOfBounds, m)) \<and>
         setitem m (i, j) v = (Some TypeError, m)"
proof -
  have a: "getitem m (i, j) = Inr (cells (df m ! nat i) ! nat j) \<and>
      nat i < length (df m) \<and> nat j < length (cells (df m ! nat i)) \<and>
      set_position (i, j) m = (None, m\<lparr>x := i, y := j\<rparr>)"
    if h: "0 \<le> i \<and> i < x_max m \<and> 0 \<le> j \<and> j < y_max m"
  proof -
    have e: "encloses m i j" using h by (simp add: encloses_def in_range_def)
    have c: "nat i < length (df m)" using h by (auto simp add: x_max_def df_width_def)
    have "int (length (cells (df m ! nat i))) = df_height (df m)"
      by (rule df_height_nth [OF assms c])
    then have r: "nat j < length (cells (df m ! nat i))" using h by (auto simp add: y_max_def)
    show ?thesis using e c r by (simp add: getitem_enclosed cell_def set_position_def)
  qed
  have b: "getitem m (i, j) = Inl OutOfBounds \<and> set_position (i, j) m = (Some OutOfBounds, m)"
    if h: "\<not> (0 \<le> i \<and> i < x_max m \<and> 0 \<le> j \<and> j < y_max m)"
  proof -
    have e: "\<not> encloses m i j" using h by (simp add: encloses_def in_range_def)
    then show ?thesis by (simp add: getitem_outside set_position_def)
  qed
  have c: "setitem m (i, j) v = (Some TypeError, m)" by (simp add: setitem_def)
  show ?thesis using a b c by blast
qed

text \<open>
  Witness of C8: the example grid at the enclosed coordinate (2, 1) and at the
  coordinate (3, 0), one column too far.
\<close>

theorem getitem_and_position_bounds_witness:
  "df_wf (df example_map) \<and>
   getitem example_map (2, 1) = Inr (IntVal 21) \<and>
   set_position (2, 1) example_map = (None, example_map\<lparr>x := 2, y := 1\<rparr>) \<and>
   setitem example_map (2, 1) (IntVal 7) = (Some TypeError, example_map) \<and>
   getitem example_map (3, 0) = Inl OutOfBounds \<and>
   set_position (3, 0) example_map = (Some OutOfBounds, example_map) \<and>
   setitem example_map (3, 0) (IntVal 7) = (Some TypeError, example_map)"
proof -
  have h1: "df_wf (df example_map)" by code_simp
  have s: "x_max example_map = 3" "y_max example_map = 2" by code_simp+
  have v: "cells (df example_map ! 2) ! Suc 0 = IntVal 21"
    by (simp add: example_map_def example_frame_def)
  from getitem_and_position_bounds [OF h1, of 2 1 "IntVal 7"]
  have a: "getitem example_map (2, 1) = Inr (IntVal 21)"
    "set_position (2, 1) example_map = (None, example_map\<lparr>x := 2, y := 1\<rparr>)"
    "setitem example_map (2, 1) (IntVal 7) = (Some TypeError, example_map)"
    by (simp_all add: s v)
  from getitem_and_position_bounds [OF h1, of 3 0 "IntVal 7"]
  have b: "getitem example_map (3, 0) = Inl OutOfBounds"
    "set_position (3, 0) example_map = (Some OutOfBounds, example_map)"
    "setitem example_map (3, 0) (IntVal 7) = (Some TypeError, example_map)"
    by (simp_all add: s)
  show ?thesis using h1 a b by blast
qed

text \<open>
  Counterexample to C9 as stated (\<^verbatim>\<open>walk(0, d)\<close> fails for every direction): on a grid of
  characters the cell under the cursor is a string, which has a length, and \<^verbatim>\<open>walk(0, E)\<close>
  returns without raising, as a no-op.
\<close>

theorem walk_zero_on_text_counterexample:
  "look (Some 0) (Some E) text_map = Inr (Value (StrVal ''#'')) \<and>
   walk 0 (Some E) text_map = (None, text_map)"
  by code_simp

text \<open>
  Claim C9, amended. For an in-bounds cursor, \<^verbatim>\<open>walk(0, d)\<close> takes the length of the bare
  cell under the cursor: it raises \<^verbatim>\<open>TypeError\<close> and changes nothing when that cell is an
  integer or \<^verbatim>\<open>None\<close>, and it returns without raising and changes nothing when that cell is
  a string. With any step count other than 0, \<^verbatim>\<open>walk\<close> returns without raising.
\<close>

theorem walk_zero_depends_on_cell:
  assumes "df_wf (df m)" and "encloses m (x m) (y m)"
  shows "getitem m (x m, y m) = Inr (cell (df m) (y m) (x m)) \<and>
         walk 0 direction m =
           (case cell (df m) (y m) (x m) of
              StrVal s \<Rightarrow> (None, m)
            | IntVal n \<Rightarrow> (Some TypeError, m)
            | NoneVal \<Rightarrow> (Some TypeError, m)) \<and>
         (\<forall>s. s \<noteq> 0 \<longrightarrow> fst (walk s direction m) = None)"
proof -
  have 1: "getitem m (x m, y m) = Inr (cell (df m) (y m) (x m))"
    by (rule getitem_enclosed [OF assms(2)])
  have 2: "walk 0 direction m =
           (case cell (df m) (y m) (x m) of
              StrVal s \<Rightarrow> (None, m)
            | IntVal n \<Rightarrow> (Some TypeError, m)
            | NoneVal \<Rightarrow> (Some TypeError, m))"
    by (simp add: walk_zero [OF assms(2)] split: pyval.splits)
  have 3: "fst (walk s direction m) = None" if "s \<noteq> 0" for s
  proof (cases "s < 0")
    case True
    then show ?thesis by (rule walk_backward_returns [OF assms(2)])
  next
    case False
    then have "1 \<le> s" using that by simp
    then show ?thesis by (simp add: walk_forward [OF assms(2)])
  qed
  show ?thesis using 1 2 3 by blast
qed

text \<open>
  Witness of C9: \<^verbatim>\<open>walk(0, E)\<close> on the example grid of integers raises, and three steps east
  do not.
\<close>

theorem walk_zero_depends_on_cell_witness:
  "df_wf (df example_map) \<and> encloses example_map (x example_map) (y example_map) \<and>
   getitem example_map (0, 0) = Inr (IntVal 0) \<and>
   walk 0 (Some E) example_map = (Some TypeError, example_map) \<and>
   (3::int) \<noteq> 0 \<and> fst (walk 3 (Some E) example_map) = None"
proof -
  have h1: "df_wf (df example_map)" by code_simp
  have h2: "encloses example_map (x example_map) (y example_map)" by code_simp
  have c: "x example_map = 0" "y example_map = 0" by (simp_all add: example_map_def)
  have v: "cell (df example_map) 0 0 = IntVal 0" by code_simp
  from walk_zero_depends_on_cell [OF h1 h2, of "Some E"]
  have "getitem example_map (0, 0) = Inr (IntVal 0)"
    "walk 0 (Some E) example_map = (Some TypeError, example_map)"
    "fst (walk 3 (Some E) example_map) = None"
    by (simp_all add: c v)
  then show ?thesis using h1 h2 by simp
qed

text \<open>
  Claim C10. \<^verbatim>\<open>rotate(0)\<close> leaves the heading, the cursor and the grid unchanged: zero
  takes the \<open>- 0.5\<close> adjustment, and \<open>int (- 0.5)\<close> is zero steps.
\<close>

theorem rotate_zero_identity: "rotate 0 m = (None, m)"
  by (simp add: rotate_def rotate_steps_floor Direction_of_value)

text \<open>Witness of C10: the example grid, heading N.\<close>

theorem rotate_zero_identity_witness:
  "rotate 0 example_map = (None, example_map) \<and> rotate_steps 0 = 0"
  using rotate_zero_identity [of example_map] by (simp add: rotate_steps_floor)

end
